theory Spec2Isabelle
  imports Complex_Main "HOL-Library.Char_ord" "HOL-Library.List_Lexorder" "HOL-Library.Multiset"
begin

text \<open>
  The report service keeps its reports in one in-memory array. This theory embeds the four
  route handlers that work on it (create, attachment upload, fetch with the entries query,
  update under optimistic concurrency) as functions on an explicit store, and proves the
  properties of the query pipeline, of the view projection and of the versioned update.
  The clock, the id generator and \<open>parseInt\<close> are inputs of the model; authentication,
  routing and the upload to disk are outside it.
\<close>

section \<open>Data model (src/models/report.ts)\<close>

datatype Status = draft | submitted

datatype Priority = low | medium | high

record Entry =
  id_e :: string
  content :: string
  createdAt_e :: string
  priority_e :: Priority

record Metrics =
  totalEntries :: nat
  highPriorityEntries :: nat

record Attachment =
  filename :: string
  originalName :: string
  mimetype :: string
  size_a :: nat
  url :: string

text \<open>
  A report object holds a reference to its \<open>entries\<close> array: the GET handler copies that
  array and sorts the copy in place, so arrays of entries live in a store of cells and a
  report carries the address of its array. The optional arrays \<open>auditLogs\<close> and
  \<open>attachments\<close> are only ever appended to and are kept by value; \<open>None\<close> is an absent
  field. Version numbers are the integer values of the JavaScript number type.
\<close>

type_synonym addr = nat

record Report =
  id_r :: string
  title :: string
  status :: Status
  priority :: Priority
  createdAt :: string
  updatedAt :: string
  version :: int
  entries :: addr
  metrics :: Metrics
  auditLogs :: "string list option"
  attachments :: "Attachment list option"

text \<open>The module-level array \<open>reports\<close> together with the entry arrays it refers to.\<close>

record state =
  reports :: "Report list"
  cells :: "addr \<Rightarrow> Entry list"
  next_free :: addr

definition alloc :: "Entry list \<Rightarrow> state \<Rightarrow> addr \<times> state" where
  "alloc xs s =
     (next_free s, s\<lparr>cells := (cells s)(next_free s := xs), next_free := Suc (next_free s)\<rparr>)"

datatype error =
    VALIDATION_ERROR
  | NOT_FOUND
  | NO_FILE
  | VERSION_CONFLICT int  \<comment> \<open>the message interpolates \<open>report.version\<close> and nothing else\<close>

section \<open>PUT /reports/:id (src/routes/authRoutes.ts, second module)\<close>

text \<open>The parsed body of \<open>updateReportSchema\<close>: every field is optional.\<close>

record update =
  title_u :: "string option"
  status_u :: "Status option"
  priority_u :: "Priority option"
  version_u :: "int option"

text \<open>\<open>Array.prototype.join\<close> on an array of strings.\<close>

fun join :: "string \<Rightarrow> string list \<Rightarrow> string" where
  "join sep [] = []"
| "join sep [x] = x"
| "join sep (x # y # ys) = x @ sep @ join sep (y # ys)"

text \<open>
  \<open>updates.version && updates.version !== report.version\<close>: the left operand is falsy
  when the field is absent and also when it is the number 0.
\<close>

definition version_mismatch :: "update \<Rightarrow> Report \<Rightarrow> bool" where
  "version_mismatch updates report =
     (case version_u updates of
        None \<Rightarrow> False
      | Some v \<Rightarrow> v \<noteq> 0 \<and> v \<noteq> version report)"

definition changed :: "'a option \<Rightarrow> 'a \<Rightarrow> bool" where
  "changed u cur = (case u of None \<Rightarrow> False | Some v \<Rightarrow> v \<noteq> cur)"

definition auditEntry_update :: "string list \<Rightarrow> string \<Rightarrow> string" where
  "auditEntry_update changedFields stamp =
     ''Updated fields: ''
       @ (if join '', '' changedFields = [] then ''none'' else join '', '' changedFields)
       @ '' at '' @ stamp"

definition push_log :: "string \<Rightarrow> string list option \<Rightarrow> string list option" where
  "push_log line logs = Some ((case logs of None \<Rightarrow> [] | Some ls \<Rightarrow> ls) @ [line])"

text \<open>
  The handler body once the report is found; \<open>now\<close> is \<open>new Date().toISOString()\<close>.
  The result is the error response or the mutated report object.
\<close>

definition put_report :: "string \<Rightarrow> update \<Rightarrow> Report \<Rightarrow> error + Report" where
  "put_report now updates report =
     (if version_mismatch updates report then Inl (VERSION_CONFLICT (version report))
      else
        let r1 = (if changed (title_u updates) (title report)
                  then report\<lparr>title := the (title_u updates)\<rparr> else report);
            c1 = (if changed (title_u updates) (title report) then [''title''] else []);
            r2 = (if changed (status_u updates) (status r1)
                  then r1\<lparr>status := the (status_u updates)\<rparr> else r1);
            c2 = (if changed (status_u updates) (status r1) then c1 @ [''status''] else c1);
            r3 = (if changed (priority_u updates) (priority r2)
                  then r2\<lparr>priority := the (priority_u updates)\<rparr> else r2);
            c3 = (if changed (priority_u updates) (priority r2) then c2 @ [''priority''] else c2);
            r4 = r3\<lparr>updatedAt := now\<rparr>;
            r5 = r4\<lparr>version := version r4 + 1\<rparr>
        in Inr (r5\<lparr>auditLogs := push_log (auditEntry_update c3 (updatedAt r5)) (auditLogs r5)\<rparr>))"

text \<open>
  The whole handler: schema validation (a supplied title must be non-empty; the enum and
  number constraints are carried by the types), lookup by id, then the body above on the
  first report with that id.
\<close>

fun replace_first :: "('a \<Rightarrow> bool) \<Rightarrow> 'a \<Rightarrow> 'a list \<Rightarrow> 'a list" where
  "replace_first P y [] = []"
| "replace_first P y (x # xs) = (if P x then y # xs else x # replace_first P y xs)"

definition put_handler :: "string \<Rightarrow> string \<Rightarrow> update \<Rightarrow> state \<Rightarrow> (error + Report) \<times> state" where
  "put_handler now i updates s =
     (if title_u updates = Some [] then (Inl VALIDATION_ERROR, s)
      else case find (\<lambda>r. id_r r = i) (reports s) of
        None \<Rightarrow> (Inl NOT_FOUND, s)
      | Some report \<Rightarrow>
          (case put_report now updates report of
             Inl e \<Rightarrow> (Inl e, s)
           | Inr r' \<Rightarrow> (Inr r', s\<lparr>reports := replace_first (\<lambda>r. id_r r = i) r' (reports s)\<rparr>)))"

section \<open>POST /reports/:id/attachment\<close>

text \<open>The file object that the upload middleware leaves in \<open>req.file\<close>.\<close>

record upload_file =
  filename_f :: string
  originalname :: string
  mimetype_f :: string
  size_f :: nat

definition post_attachment :: "string \<Rightarrow> upload_file option \<Rightarrow> Report \<Rightarrow> error + Report" where
  "post_attachment now req_file report =
     (case req_file of
        None \<Rightarrow> Inl NO_FILE
      | Some f \<Rightarrow>
          let attachment = \<lparr>filename = filename_f f, originalName = originalname f,
                             mimetype = mimetype_f f, size_a = size_f f,
                             url = ''/uploads/'' @ filename_f f\<rparr>;
              r1 = report\<lparr>attachments :=
                     Some ((case attachments report of None \<Rightarrow> [] | Some as \<Rightarrow> as) @ [attachment])\<rparr>;
              auditEntry = ''Uploaded attachment: '' @ originalName attachment @ '' at '' @ now
          in Inr (r1\<lparr>auditLogs := push_log auditEntry (auditLogs r1)\<rparr>))"

section \<open>POST /reports\<close>

record create_body =
  title_n :: "string option"
  status_n :: "Status option"
  priority_n :: "Priority option"

text \<open>
  \<open>uuid\<close> is the value of \<open>uuidv4()\<close>; \<open>now1\<close> and \<open>now2\<close> are the two readings of the clock
  taken for \<open>createdAt\<close> and \<open>updatedAt\<close>.
\<close>

definition post_report ::
  "string \<Rightarrow> string \<Rightarrow> string \<Rightarrow> create_body \<Rightarrow> state \<Rightarrow> (error + Report) \<times> state" where
  "post_report uuid now1 now2 body s =
     (case title_n body of
        None \<Rightarrow> (Inl VALIDATION_ERROR, s)
      | Some t \<Rightarrow>
          if t = [] then (Inl VALIDATION_ERROR, s)
          else
            let (a, s1) = alloc [] s;
                newReport = \<lparr>id_r = uuid, title = t,
                   status = (case status_n body of None \<Rightarrow> draft | Some st \<Rightarrow> st),
                   priority = (case priority_n body of None \<Rightarrow> medium | Some p \<Rightarrow> p),
                   createdAt = now1, updatedAt = now2, version = 1, entries = a,
                   metrics = \<lparr>totalEntries = 0, highPriorityEntries = 0\<rparr>,
                   auditLogs = None, attachments = None\<rparr>
            in (Inr newReport, s1\<lparr>reports := reports s1 @ [newReport]\<rparr>))"

section \<open>GET /reports/:id\<close>

subsection \<open>Query parameters\<close>

text \<open>
  The query string as the handler reads it. \<open>entries_page\<close> and \<open>entries_size\<close> hold the
  value of \<open>parseInt\<close> on the parameter, \<open>None\<close> being NaN (absent or not a number).
\<close>

record query =
  view :: "string option"
  include_q :: "string option"
  entries_highPriorityOnly :: "string option"
  entries_sort :: "string option"
  entries_page :: "int option"
  entries_size :: "int option"

text \<open>
  \<open>String.prototype.split\<close> with a one-character separator. The result always has at
  least one element, so the first branch of the \<open>case\<close> is never taken.
\<close>

fun split_on :: "char \<Rightarrow> string \<Rightarrow> string list" where
  "split_on c [] = [[]]"
| "split_on c (x # xs) =
     (if x = c then [] # split_on c xs
      else case split_on c xs of [] \<Rightarrow> [[x]] | w # ws \<Rightarrow> (x # w) # ws)"

text \<open>
  \<open>String.prototype.trim\<close> on strings of code units below 256: tab, LF, VT, FF, CR, space
  and the no-break space U+00A0 are the white space and line terminators in that range.
\<close>

definition is_space :: "char \<Rightarrow> bool" where
  "is_space c =
     (c \<in> set [CHR 0x09, CHR 0x0A, CHR 0x0B, CHR 0x0C, CHR 0x0D, CHR 0x20, CHR 0xA0])"

definition trim :: "string \<Rightarrow> string" where
  "trim s = rev (dropWhile is_space (rev (dropWhile is_space s)))"

definition include_entries :: "query \<Rightarrow> bool" where
  "include_entries q =
     (case include_q q of
        None \<Rightarrow> False
      | Some inc \<Rightarrow> inc \<noteq> [] \<and> ''entries'' \<in> set (map trim (split_on CHR '','' inc)))"

subsection \<open>Sorting\<close>

text \<open>
  The values the comparator reads: \<open>(a as any)[field]\<close> is a string for the three string
  fields of an entry and \<open>undefined\<close> for every other name; for \<open>priority\<close> the value is
  replaced by its number in \<open>priorityMap\<close>.
\<close>

datatype jsval = Undefined | Num int | Str string

fun priority_name :: "Priority \<Rightarrow> string" where
  "priority_name low = ''low''"
| "priority_name medium = ''medium''"
| "priority_name high = ''high''"

definition get_field :: "string \<Rightarrow> Entry \<Rightarrow> jsval" where
  "get_field field e =
     (if field = ''id'' then Str (id_e e)
      else if field = ''content'' then Str (content e)
      else if field = ''createdAt'' then Str (createdAt_e e)
      else if field = ''priority'' then Str (priority_name (priority_e e))
      else Undefined)"

fun priorityMap :: "Priority \<Rightarrow> int" where
  "priorityMap low = 1"
| "priorityMap medium = 2"
| "priorityMap high = 3"

text \<open>
  \<open>a < b\<close> on two values read from the same field: numbers by value, strings
  lexicographically by character code, and never true when an operand is \<open>undefined\<close>.
\<close>

fun js_lt :: "jsval \<Rightarrow> jsval \<Rightarrow> bool" where
  "js_lt (Num a) (Num b) = (a < b)"
| "js_lt (Str a) (Str b) = (a < b)"
| "js_lt _ _ = False"

definition sort_value :: "string \<Rightarrow> Entry \<Rightarrow> jsval" where
  "sort_value field e =
     (if field = ''priority'' then Num (priorityMap (priority_e e)) else get_field field e)"

definition compare :: "string \<Rightarrow> string option \<Rightarrow> Entry \<Rightarrow> Entry \<Rightarrow> int" where
  "compare field order a b =
     (let aValue = sort_value field a; bValue = sort_value field b
      in if js_lt aValue bValue then (if order = Some ''desc'' then 1 else - 1)
         else if js_lt bValue aValue then (if order = Some ''desc'' then - 1 else 1)
         else 0)"

text \<open>
  \<open>Array.prototype.sort\<close> with a comparator is a stable sort (ECMAScript 2019): an
  insertion sort that puts each element in front of the first one it does not follow.
\<close>

fun insert_cmp :: "('a \<Rightarrow> 'a \<Rightarrow> int) \<Rightarrow> 'a \<Rightarrow> 'a list \<Rightarrow> 'a list" where
  "insert_cmp c x [] = [x]"
| "insert_cmp c x (y # ys) = (if c x y \<le> 0 then x # y # ys else y # insert_cmp c x ys)"

definition sort_cmp :: "('a \<Rightarrow> 'a \<Rightarrow> int) \<Rightarrow> 'a list \<Rightarrow> 'a list" where
  "sort_cmp c xs = foldr (insert_cmp c) xs []"

text \<open>\<open>const [field, order] = sortParam.split('_')\<close>\<close>

definition sort_field :: "string \<Rightarrow> string" where
  "sort_field sortParam = (case split_on CHR ''_'' sortParam of [] \<Rightarrow> [] | f # _ \<Rightarrow> f)"

definition sort_order :: "string \<Rightarrow> string option" where
  "sort_order sortParam = (case split_on CHR ''_'' sortParam of _ # ord # _ \<Rightarrow> Some ord | _ \<Rightarrow> None)"

definition sort_entries :: "string option \<Rightarrow> Entry list \<Rightarrow> Entry list" where
  "sort_entries sortParam es =
     (case sortParam of
        None \<Rightarrow> es
      | Some p \<Rightarrow> if p = [] then es
                  else sort_cmp (compare (sort_field p) (sort_order p)) es)"

subsection \<open>Pagination\<close>

record pagination =
  page :: int
  size_p :: int
  totalPages :: int
  totalEntries_p :: int

text \<open>\<open>parseInt(...) || d\<close>: NaN and 0 are both falsy.\<close>

definition or_default :: "int option \<Rightarrow> int \<Rightarrow> int" where
  "or_default n d = (case n of None \<Rightarrow> d | Some k \<Rightarrow> if k = 0 then d else k)"

definition validPage :: "query \<Rightarrow> int" where
  "validPage q = max (or_default (entries_page q) 1) 1"

definition validSize :: "query \<Rightarrow> int" where
  "validSize q = min (max (or_default (entries_size q) 10) 1) 100"

text \<open>\<open>Array.prototype.slice(start, end)\<close>; a negative index counts from the end.\<close>

definition slice :: "'a list \<Rightarrow> int \<Rightarrow> int \<Rightarrow> 'a list" where
  "slice xs start fin =
     (let len = int (length xs);
          k = (if start < 0 then max (len + start) 0 else min start len);
          final = (if fin < 0 then max (len + fin) 0 else min fin len)
      in take (nat (final - k)) (drop (nat k) xs))"

definition paginate :: "query \<Rightarrow> Entry list \<Rightarrow> Entry list \<times> pagination" where
  "paginate q es =
     (let totalEntries = int (length es);
          totalPages = \<lceil>real_of_int totalEntries / real_of_int (validSize q)\<rceil>;
          start = (validPage q - 1) * validSize q;
          fin = start + validSize q
      in (slice es start fin,
          \<lparr>page = validPage q, size_p = validSize q, totalPages = totalPages,
           totalEntries_p = totalEntries\<rparr>))"

subsection \<open>The handler\<close>

record compact_view =
  id_cv :: string
  title_cv :: string
  status_cv :: Status
  priority_cv :: Priority
  metrics_cv :: Metrics
  entryCount :: nat
  highPriorityRate :: real

record full_view =
  id_fv :: string
  title_fv :: string
  status_fv :: Status
  priority_fv :: Priority
  createdAt_fv :: string
  updatedAt_fv :: string
  version_fv :: int
  metrics_fv :: Metrics
  entries_fv :: "Entry list option"
  entries_pagination :: "pagination option"

datatype response = Compact compact_view | Full full_view

definition compact :: "Report \<Rightarrow> state \<Rightarrow> compact_view" where
  "compact report s =
     (let totalEntries = length (cells s (entries report));
          highPriorityEntries = length (filter (\<lambda>e. priority_e e = high) (cells s (entries report)));
          highPriorityRate = (if totalEntries > 0
                              then of_nat highPriorityEntries / of_nat totalEntries else 0)
      in \<lparr>id_cv = id_r report, title_cv = title report, status_cv = status report,
          priority_cv = priority report, metrics_cv = metrics report,
          entryCount = totalEntries, highPriorityRate = highPriorityRate\<rparr>)"

text \<open>Sorting in place overwrites the array at the given address.\<close>

definition sort_at :: "addr \<Rightarrow> string option \<Rightarrow> state \<Rightarrow> state" where
  "sort_at a sortParam s = s\<lparr>cells := (cells s)(a := sort_entries sortParam (cells s a))\<rparr>"

text \<open>
  The entries branch: the spread copy, \<open>filter\<close> and \<open>slice\<close> each allocate a new array;
  \<open>sort\<close> works in place on the array that \<open>entries\<close> refers to at that point.
\<close>

definition query_entries :: "query \<Rightarrow> Report \<Rightarrow> state \<Rightarrow> (Entry list \<times> pagination) \<times> state" where
  "query_entries q report s =
     (let (a1, s1) = alloc (cells s (entries report)) s;
          (a2, s2) = (if entries_highPriorityOnly q = Some ''true''
                      then alloc (filter (\<lambda>e. priority_e e = high) (cells s1 a1)) s1
                      else (a1, s1));
          s3 = sort_at a2 (entries_sort q) s2;
          (sliced, pg) = paginate q (cells s3 a2);
          (a3, s4) = alloc sliced s3
      in ((cells s4 a3, pg), s4))"

definition get_report :: "string \<Rightarrow> query \<Rightarrow> state \<Rightarrow> (error + response) \<times> state" where
  "get_report i q s =
     (case find (\<lambda>r. id_r r = i) (reports s) of
        None \<Rightarrow> (Inl NOT_FOUND, s)
      | Some report \<Rightarrow>
          if view q = Some ''compact'' then (Inr (Compact (compact report s)), s)
          else
            let result = \<lparr>id_fv = id_r report, title_fv = title report,
                  status_fv = status report, priority_fv = priority report,
                  createdAt_fv = createdAt report, updatedAt_fv = updatedAt report,
                  version_fv = version report, metrics_fv = metrics report,
                  entries_fv = None, entries_pagination = None\<rparr>
            in if include_entries q
               then (let ((es, pg), s') = query_entries q report s
                     in (Inr (Full (result\<lparr>entries_fv := Some es, entries_pagination := Some pg\<rparr>)), s'))
               else (Inr (Full result), s))"

text \<open>The same pipeline on the contents of the array alone.\<close>

definition filter_entries :: "query \<Rightarrow> Entry list \<Rightarrow> Entry list" where
  "filter_entries q es =
     (if entries_highPriorityOnly q = Some ''true''
      then filter (\<lambda>e. priority_e e = high) es else es)"

definition pipeline :: "query \<Rightarrow> Entry list \<Rightarrow> Entry list \<times> pagination" where
  "pipeline q es = paginate q (sort_entries (entries_sort q) (filter_entries q es))"

section \<open>Sequences of mutations on one report\<close>

text \<open>
  A report object is mutated by the PUT handler and by the attachment handler. A request
  that fails leaves the object as it was and the next request runs on it.
\<close>

datatype mutation = Update string update | Append string "upload_file option"

fun mutate :: "mutation \<Rightarrow> Report \<Rightarrow> error + Report" where
  "mutate (Update now updates) report = put_report now updates report"
| "mutate (Append now req_file) report = post_attachment now req_file report"

fun is_update :: "mutation \<Rightarrow> bool" where
  "is_update (Update now updates) = True"
| "is_update (Append now req_file) = False"

fun run :: "mutation list \<Rightarrow> Report \<Rightarrow> Report" where
  "run [] report = report"
| "run (m # ms) report =
     (case mutate m report of Inl e \<Rightarrow> run ms report | Inr r' \<Rightarrow> run ms r')"

fun successful_updates :: "mutation list \<Rightarrow> Report \<Rightarrow> nat" where
  "successful_updates [] report = 0"
| "successful_updates (m # ms) report =
     (case mutate m report of
        Inl e \<Rightarrow> successful_updates ms report
      | Inr r' \<Rightarrow> (if is_update m then 1 else 0) + successful_updates ms r')"

section \<open>Well-formed stores\<close>

text \<open>Every report refers to an array that has been allocated.\<close>

definition wf_state :: "state \<Rightarrow> bool" where
  "wf_state s = (\<forall>r \<in> set (reports s). entries r < next_free s)"

section \<open>Sample values\<close>

definition empty_state :: state where
  "empty_state = \<lparr>reports = [], cells = (\<lambda>a. []), next_free = 0\<rparr>"

definition sample_report :: Report where
  "sample_report =
     \<lparr>id_r = ''r-1'', title = ''Q1'', status = draft, priority = medium,
      createdAt = ''2025-11-25T10:30:00.000Z'', updatedAt = ''2025-11-25T10:30:00.000Z'',
      version = 1, entries = 0, metrics = \<lparr>totalEntries = 0, highPriorityEntries = 0\<rparr>,
      auditLogs = None, attachments = None\<rparr>"

definition sample_file :: upload_file where
  "sample_file = \<lparr>filename_f = ''file-1764120209757-268757.jpg'', originalname = ''file.jpg'',
                   mimetype_f = ''image/jpeg'', size_f = 432030\<rparr>"

definition no_update :: update where
  "no_update = \<lparr>title_u = None, status_u = None, priority_u = None, version_u = None\<rparr>"

text \<open>
  An upload, an update at the matching version 1, an update that repeats the then stale
  version 1, and an upload without a file.
\<close>

definition sample_mutations :: "mutation list" where
  "sample_mutations =
     [Append ''2025-11-25T12:01:00.000Z'' (Some sample_file),
      Update ''2025-11-25T12:02:00.000Z'' (no_update\<lparr>title_u := Some ''Q1 final'', version_u := Some 1\<rparr>),
      Update ''2025-11-25T12:03:00.000Z'' (no_update\<lparr>version_u := Some 1\<rparr>),
      Append ''2025-11-25T12:04:00.000Z'' None]"

text \<open>
  A store whose only report still has the metrics it was created with, while its array
  holds four entries.
\<close>

definition sample_entry :: "string \<Rightarrow> Priority \<Rightarrow> Entry" where
  "sample_entry i p =
     \<lparr>id_e = i, content = ''note'', createdAt_e = ''2025-11-25T11:00:00.000Z'', priority_e = p\<rparr>"

definition sample_entries :: "Entry list" where
  "sample_entries =
     [sample_entry ''e1'' high, sample_entry ''e2'' low, sample_entry ''e3'' medium,
      sample_entry ''e4'' low]"

definition sample_state :: state where
  "sample_state = \<lparr>reports = [sample_report], cells = (\<lambda>a. [])(0 := sample_entries), next_free = 1\<rparr>"

definition no_query :: query where
  "no_query = \<lparr>view = None, include_q = None, entries_highPriorityOnly = None,
                entries_sort = None, entries_page = None, entries_size = None\<rparr>"

definition entries25 :: "Entry list" where
  "entries25 = map (\<lambda>c. sample_entry [c] low) ''abcdefghijklmnopqrstuvwxy''"

section \<open>Properties of the comparator and of the sort\<close>

lemma mset_insert_cmp: "mset (insert_cmp c x ys) = add_mset x (mset ys)"
  by (induction ys) auto

lemma sort_cmp_Cons: "sort_cmp c (x # xs) = insert_cmp c x (sort_cmp c xs)"
  by (simp add: sort_cmp_def)

lemma sort_cmp_Nil: "sort_cmp c [] = []"
  by (simp add: sort_cmp_def)

lemma mset_sort_cmp: "mset (sort_cmp c xs) = mset xs"
  by (induction xs) (simp_all add: sort_cmp_Nil sort_cmp_Cons mset_insert_cmp)

lemma length_sort_cmp: "length (sort_cmp c xs) = length xs"
  by (metis mset_sort_cmp size_mset)

lemma insert_cmp_insort_key:
  "(\<And>y. (c x y \<le> 0) = (k x \<le> k y)) \<Longrightarrow> insert_cmp c x ys = insort_key k x ys"
  by (induction ys) simp_all

lemma sort_cmp_sort_key:
  "(\<And>x y. (c x y \<le> 0) = (k x \<le> k y)) \<Longrightarrow> sort_cmp c xs = sort_key k xs"
  by (induction xs) (simp_all add: sort_cmp_Nil sort_cmp_Cons insert_cmp_insort_key)

lemma filter_insert_cmp_in:
  "P x \<Longrightarrow> (\<And>y. P y \<Longrightarrow> c x y \<le> 0) \<Longrightarrow> filter P (insert_cmp c x ys) = x # filter P ys"
  by (induction ys) auto

lemma filter_insert_cmp_out:
  "\<not> P x \<Longrightarrow> filter P (insert_cmp c x ys) = filter P ys"
  by (induction ys) auto

lemma compare_zero_iff:
  "compare f ord a b = 0 \<longleftrightarrow> \<not> js_lt (sort_value f a) (sort_value f b) \<and> \<not> js_lt (sort_value f b) (sort_value f a)"
  by (simp add: compare_def Let_def)

lemma compare_desc: "ord \<noteq> Some ''desc'' \<Longrightarrow> compare f (Some ''desc'') a b = - compare f ord a b"
  by (simp add: compare_def Let_def)

lemma compare_default: "ord \<noteq> Some ''desc'' \<Longrightarrow> compare f ord a b = compare f None a b"
  by (simp add: compare_def Let_def)

lemma sv_priority: "sort_value ''priority'' e = Num (priorityMap (priority_e e))"
  by (simp add: sort_value_def)

lemma compare_priority_asc:
  "ord \<noteq> Some ''desc'' \<Longrightarrow> (compare ''priority'' ord a b \<le> 0) = (priorityMap (priority_e a) \<le> priorityMap (priority_e b))"
  by (simp add: compare_def Let_def sv_priority)

lemma compare_priority_desc:
  "(compare ''priority'' (Some ''desc'') a b \<le> 0) = (- priorityMap (priority_e a) \<le> - priorityMap (priority_e b))"
  by (simp add: compare_def Let_def sv_priority)

lemma sort_value_kind:
  "(\<exists>s. sort_value f a = Str s) \<and> (\<exists>t. sort_value f b = Str t) \<and> (\<exists>t. sort_value f c = Str t)
   \<or> (\<exists>m. sort_value f a = Num m) \<and> (\<exists>n. sort_value f b = Num n) \<and> (\<exists>n. sort_value f c = Num n)
   \<or> sort_value f a = Undefined \<and> sort_value f b = Undefined \<and> sort_value f c = Undefined"
  by (simp add: sort_value_def get_field_def)

lemma compare_eq_class:
  assumes "compare f ord x e = 0" and "compare f ord x y = 0"
  shows "compare f ord e y = 0"
proof -
  from assms have h:
    "\<not> js_lt (sort_value f x) (sort_value f e)" "\<not> js_lt (sort_value f e) (sort_value f x)"
    "\<not> js_lt (sort_value f x) (sort_value f y)" "\<not> js_lt (sort_value f y) (sort_value f x)"
    by (simp_all add: compare_zero_iff)
  from sort_value_kind [of f x e y] h
  have "\<not> js_lt (sort_value f e) (sort_value f y) \<and> \<not> js_lt (sort_value f y) (sort_value f e)"
    by (elim disjE conjE exE) simp_all
  then show ?thesis by (simp add: compare_zero_iff)
qed

lemma sort_cmp_stable:
  "filter (\<lambda>y. compare f ord x y = 0) (sort_cmp (compare f ord) es)
     = filter (\<lambda>y. compare f ord x y = 0) es"
proof (induction es)
  case Nil
  show ?case by (simp add: sort_cmp_Nil)
next
  case (Cons e es)
  show ?case
  proof (cases "compare f ord x e = 0")
    case True
    have later: "compare f ord e y \<le> 0" if "compare f ord x y = 0" for y
    proof -
      from True that have "compare f ord e y = 0" by (rule compare_eq_class)
      then show ?thesis by simp
    qed
    have "filter (\<lambda>y. compare f ord x y = 0)
            (insert_cmp (compare f ord) e (sort_cmp (compare f ord) es))
          = e # filter (\<lambda>y. compare f ord x y = 0) (sort_cmp (compare f ord) es)"
      using filter_insert_cmp_in [where P = "\<lambda>y. compare f ord x y = 0"
          and c = "compare f ord" and x = e, OF True later] .
    with True Cons show ?thesis by (simp add: sort_cmp_Cons)
  next
    case False
    with Cons show ?thesis by (simp add: sort_cmp_Cons filter_insert_cmp_out)
  qed
qed

section \<open>Properties of pagination and of the entries branch\<close>

lemma slice_nonneg:
  assumes "0 \<le> start" and "start \<le> fin"
  shows "slice xs start fin = take (nat (fin - start)) (drop (nat start) xs)"
proof (cases "start \<le> int (length xs)")
  case True
  show ?thesis
  proof (cases "fin \<le> int (length xs)")
    case True
    with assms \<open>start \<le> int (length xs)\<close> show ?thesis
      by (simp add: slice_def Let_def min_def)
  next
    case False
    with assms True have "slice xs start fin = drop (nat start) xs"
      by (simp add: slice_def Let_def min_def)
    moreover from False assms have "take (nat (fin - start)) (drop (nat start) xs) = drop (nat start) xs"
      by simp
    ultimately show ?thesis by simp
  qed
next
  case False
  with assms show ?thesis by (simp add: slice_def Let_def min_def)
qed

lemma validPage_ge: "1 \<le> validPage q"
  by (simp add: validPage_def)

lemma validSize_range: "1 \<le> validSize q \<and> validSize q \<le> 100"
  by (simp add: validSize_def)

lemma validPage_eq: "validPage q = (case entries_page q of None \<Rightarrow> 1 | Some p \<Rightarrow> max p 1)"
  by (simp add: validPage_def or_default_def split: option.splits)

lemma validSize_eq:
  "entries_size q \<noteq> Some 0 \<Longrightarrow>
   validSize q = (case entries_size q of None \<Rightarrow> 10 | Some n \<Rightarrow> min (max n 1) 100)"
  by (simp add: validSize_def or_default_def split: option.splits)

lemma paginate_eq:
  "paginate q es =
     (take (nat (validSize q)) (drop (nat ((validPage q - 1) * validSize q)) es),
      \<lparr>page = validPage q, size_p = validSize q,
       totalPages = \<lceil>real (length es) / real_of_int (validSize q)\<rceil>,
       totalEntries_p = int (length es)\<rparr>)"
proof -
  have "0 \<le> (validPage q - 1) * validSize q"
    using validPage_ge [of q] validSize_range [of q] by simp
  moreover have "(validPage q - 1) * validSize q \<le> (validPage q - 1) * validSize q + validSize q"
    using validSize_range [of q] by simp
  ultimately have "slice es ((validPage q - 1) * validSize q) ((validPage q - 1) * validSize q + validSize q)
      = take (nat (validSize q)) (drop (nat ((validPage q - 1) * validSize q)) es)"
    using slice_nonneg [of "(validPage q - 1) * validSize q" "(validPage q - 1) * validSize q + validSize q" es]
    by simp
  then show ?thesis by (simp add: paginate_def Let_def)
qed

lemma alloc_simps:
  "fst (alloc xs s) = next_free s"
  "reports (snd (alloc xs s)) = reports s"
  "next_free (snd (alloc xs s)) = Suc (next_free s)"
  "cells (snd (alloc xs s)) = (cells s)(next_free s := xs)"
  by (simp_all add: alloc_def)

lemma query_entries_result:
  "fst (query_entries q report s) = pipeline q (cells s (entries report))"
  by (simp add: query_entries_def pipeline_def filter_entries_def sort_at_def alloc_def
      Let_def split_def)

lemma query_entries_frame:
  "reports (snd (query_entries q report s)) = reports s \<and>
   (\<forall>a < next_free s. cells (snd (query_entries q report s)) a = cells s a)"
  by (simp add: query_entries_def sort_at_def alloc_def Let_def split_def)

lemma get_report_frame_cells:
  "reports (snd (get_report i q s)) = reports s \<and>
   (\<forall>a < next_free s. cells (snd (get_report i q s)) a = cells s a)"
proof (cases "find (\<lambda>r. id_r r = i) (reports s)")
  case None
  then show ?thesis by (simp add: get_report_def)
next
  case (Some report)
  show ?thesis
  proof (cases "view q \<noteq> Some ''compact'' \<and> include_entries q")
    case True
    with Some have "snd (get_report i q s) = snd (query_entries q report s)"
      by (simp add: get_report_def Let_def split_def)
    then show ?thesis using query_entries_frame [of q report s] by simp
  next
    case False
    with Some have "snd (get_report i q s) = s"
      by (auto simp: get_report_def Let_def)
    then show ?thesis by simp
  qed
qed

lemma compare_priority_value:
  "ord \<noteq> Some ''desc'' \<Longrightarrow>
   compare ''priority'' ord a b =
     (if priorityMap (priority_e a) < priorityMap (priority_e b) then - 1
      else if priorityMap (priority_e b) < priorityMap (priority_e a) then 1 else 0)"
  by (simp add: compare_def Let_def sv_priority)

lemma sorted_priority_asc:
  assumes "ord \<noteq> Some ''desc''"
  shows "sorted (map (\<lambda>e. priorityMap (priority_e e)) (sort_cmp (compare ''priority'' ord) es))"
proof -
  have "sort_cmp (compare ''priority'' ord) es = sort_key (\<lambda>e. priorityMap (priority_e e)) es"
    by (rule sort_cmp_sort_key) (rule compare_priority_asc [OF assms])
  then show ?thesis by simp
qed

lemma sorted_priority_desc:
  "sorted_wrt (\<lambda>x y. priorityMap (priority_e y) \<le> priorityMap (priority_e x))
     (sort_cmp (compare ''priority'' (Some ''desc'')) es)"
proof -
  have "sort_cmp (compare ''priority'' (Some ''desc'')) es
          = sort_key (\<lambda>e. - priorityMap (priority_e e)) es"
    by (rule sort_cmp_sort_key) (rule compare_priority_desc)
  moreover have "sorted (map (\<lambda>e. - priorityMap (priority_e e))
                   (sort_key (\<lambda>e. - priorityMap (priority_e e)) es))"
    by simp
  ultimately show ?thesis by (simp add: sorted_map)
qed

lemma sort_param_parse:
  "sort_field ''priority_desc'' = ''priority''" "sort_order ''priority_desc'' = Some ''desc''"
  "sort_field ''priority_asc'' = ''priority''" "sort_order ''priority_asc'' = Some ''asc''"
  "sort_field ''priority'' = ''priority''" "sort_order ''priority'' = None"
  by (simp_all add: sort_field_def sort_order_def)

lemma split_on_no_sep: "c \<notin> set w \<Longrightarrow> split_on c w = [w]"
  by (induction w) auto

lemma split_on_one_sep:
  "c \<notin> set f \<Longrightarrow> c \<notin> set w \<Longrightarrow> split_on c (f @ c # w) = [f, w]"
  by (induction f) (auto simp: split_on_no_sep)

lemma sort_param_plain:
  "CHR ''_'' \<notin> set f \<Longrightarrow> sort_field f = f \<and> sort_order f = None"
  by (simp add: sort_field_def sort_order_def split_on_no_sep)

lemma sort_param_token:
  "CHR ''_'' \<notin> set f \<Longrightarrow> CHR ''_'' \<notin> set tok \<Longrightarrow>
   sort_field (f @ ''_'' @ tok) = f \<and> sort_order (f @ ''_'' @ tok) = Some tok"
  by (simp add: sort_field_def sort_order_def split_on_one_sep)

lemma sort_entries_stable:
  "filter (\<lambda>y. compare (sort_field p) (sort_order p) x y = 0) (sort_entries (Some p) es)
     = filter (\<lambda>y. compare (sort_field p) (sort_order p) x y = 0) es"
  by (simp add: sort_entries_def sort_cmp_stable)

lemma mset_sort_entries: "mset (sort_entries p es) = mset es"
  by (simp add: sort_entries_def mset_sort_cmp split: option.splits)

lemma compare_fun_default: "ord \<noteq> Some ''desc'' \<Longrightarrow> compare f ord = compare f None"
  by (intro ext) (rule compare_default)

text \<open>
  Claim C4. Sorting by \<open>priority\<close> compares entries through the numbers low = 1,
  medium = 2, high = 3, so that the ascending result has every low before every medium
  before every high. The token \<open>desc\<close> negates the comparator; any other token
  (\<open>tok\<close>) and an absent token give the ascending comparator. The sorted array is a
  permutation of the filtered one, and the entries that compare equal to any given entry
  \<open>x\<close> occur in it in the order they had before the sort.
\<close>

theorem entries_sort_by_priority:
  assumes "CHR ''_'' \<notin> set f" and "f \<noteq> []" and "CHR ''_'' \<notin> set tok" and "tok \<noteq> ''desc''"
  shows "priorityMap low = 1 \<and> priorityMap medium = 2 \<and> priorityMap high = 3
       \<and> compare ''priority'' None a b =
            (if priorityMap (priority_e a) < priorityMap (priority_e b) then - 1
             else if priorityMap (priority_e b) < priorityMap (priority_e a) then 1 else 0)
       \<and> sorted (map (\<lambda>e. priorityMap (priority_e e)) (sort_entries (Some ''priority'') es))
       \<and> sorted (map (\<lambda>e. priorityMap (priority_e e)) (sort_entries (Some (''priority_'' @ tok)) es))
       \<and> sorted_wrt (\<lambda>x y. priorityMap (priority_e y) \<le> priorityMap (priority_e x))
            (sort_entries (Some ''priority_desc'') es)
       \<and> sort_entries (Some (f @ ''_desc'')) es = sort_cmp (compare f (Some ''desc'')) es
       \<and> compare f (Some ''desc'') a b = - compare f None a b
       \<and> sort_entries (Some (f @ ''_'' @ tok)) es = sort_cmp (compare f None) es
       \<and> sort_entries (Some f) es = sort_cmp (compare f None) es
       \<and> mset (sort_entries (Some p) es) = mset es
       \<and> filter (\<lambda>y. compare (sort_field p) (sort_order p) x y = 0) (sort_entries (Some p) es)
            = filter (\<lambda>y. compare (sort_field p) (sort_order p) x y = 0) es"
proof -
  have tok: "Some tok \<noteq> Some ''desc''" using assms(4) by simp
  have u: "CHR ''_'' \<notin> set ''priority''" "CHR ''_'' \<notin> set ''desc''" by simp_all
  have asc_plain: "sort_entries (Some g) es = sort_cmp (compare g None) es"
    if "CHR ''_'' \<notin> set g" "g \<noteq> []" for g
    using that by (simp add: sort_entries_def sort_param_plain)
  have asc_tok: "sort_entries (Some (g @ ''_'' @ tok)) es = sort_cmp (compare g None) es"
    if "CHR ''_'' \<notin> set g" for g
    using that assms(3) sort_param_token [of g tok] compare_fun_default [OF tok, of g]
    by (simp add: sort_entries_def)
  have desc: "sort_entries (Some (g @ ''_desc'')) es = sort_cmp (compare g (Some ''desc'')) es"
    if "CHR ''_'' \<notin> set g" for g
    using that sort_param_token [of g "''desc''"] by (simp add: sort_entries_def)
  have s1: "sorted (map (\<lambda>e. priorityMap (priority_e e)) (sort_entries (Some ''priority'') es))"
    using asc_plain [of "''priority''"] sorted_priority_asc [of None es] by simp
  have s2: "sorted (map (\<lambda>e. priorityMap (priority_e e)) (sort_entries (Some (''priority_'' @ tok)) es))"
    using asc_tok [of "''priority''"] sorted_priority_asc [of None es] by simp
  have s3: "sorted_wrt (\<lambda>x y. priorityMap (priority_e y) \<le> priorityMap (priority_e x))
            (sort_entries (Some ''priority_desc'') es)"
    using desc [of "''priority''"] sorted_priority_desc [of es] by simp
  have c1: "compare ''priority'' None a b =
            (if priorityMap (priority_e a) < priorityMap (priority_e b) then - 1
             else if priorityMap (priority_e b) < priorityMap (priority_e a) then 1 else 0)"
    by (rule compare_priority_value) simp
  have c2: "compare f (Some ''desc'') a b = - compare f None a b"
    by (rule compare_desc) simp
  show ?thesis
    using s1 s2 s3 c1 c2 desc [OF assms(1)] asc_tok [OF assms(1)] asc_plain [OF assms(1,2)]
      mset_sort_entries [of "Some p" es] sort_entries_stable [of p x es]
    by simp
qed

text \<open>
  Claim C4 on the sample entries (high, low, medium, low), with the field \<open>priority\<close>
  and the order token \<open>asc\<close>: the two low entries keep their order in both directions.
\<close>

theorem entries_sort_by_priority_witness:
  "sort_entries (Some ''priority'') sample_entries
     = [sample_entry ''e2'' low, sample_entry ''e4'' low, sample_entry ''e3'' medium, sample_entry ''e1'' high]
   \<and> sort_entries (Some ''priority_asc'') sample_entries
     = [sample_entry ''e2'' low, sample_entry ''e4'' low, sample_entry ''e3'' medium, sample_entry ''e1'' high]
   \<and> sort_entries (Some ''priority_desc'') sample_entries
     = [sample_entry ''e1'' high, sample_entry ''e3'' medium, sample_entry ''e2'' low, sample_entry ''e4'' low]
   \<and> sorted (map (\<lambda>e. priorityMap (priority_e e)) (sort_entries (Some ''priority_asc'') sample_entries))"
proof -
  have h: "CHR ''_'' \<notin> set ''priority''" "''priority'' \<noteq> []" "CHR ''_'' \<notin> set ''asc''" "''asc'' \<noteq> ''desc''"
    by simp_all
  have ev: "sort_cmp (compare ''priority'' None) sample_entries
     = [sample_entry ''e2'' low, sample_entry ''e4'' low, sample_entry ''e3'' medium, sample_entry ''e1'' high]"
    "sort_cmp (compare ''priority'' (Some ''desc'')) sample_entries
     = [sample_entry ''e1'' high, sample_entry ''e3'' medium, sample_entry ''e2'' low, sample_entry ''e4'' low]"
    by (simp_all add: sort_cmp_def compare_def sort_value_def sample_entries_def sample_entry_def Let_def)
  from entries_sort_by_priority [OF h, of _ _ sample_entries] ev show ?thesis
    by (simp add: sample_entry_def)
qed

lemma length_sort_entries: "length (sort_entries p es) = length es"
  by (simp add: sort_entries_def length_sort_cmp split: option.splits)

text \<open>
  Claim C3 says that every size input is clamped to the range from 1 to 100. A size of 0
  is not: \<open>parseInt(...) || 10\<close> replaces it by the default 10 before the clamp, so the
  page holds up to ten entries where a clamp to 1 would return one.
\<close>

theorem pagination_size_zero_counterexample:
  "size_p (snd (paginate (no_query\<lparr>entries_size := Some 0\<rparr>) sample_entries)) = 10
   \<and> size_p (snd (paginate (no_query\<lparr>entries_size := Some 0\<rparr>) sample_entries)) \<noteq> min (max 0 1) 100
   \<and> fst (paginate (no_query\<lparr>entries_size := Some 0\<rparr>) sample_entries) = sample_entries
   \<and> fst (paginate (no_query\<lparr>entries_size := Some 0\<rparr>) sample_entries) \<noteq> take 1 sample_entries"
  by (simp add: paginate_eq validSize_def validPage_def or_default_def no_query_def sample_entries_def)

text \<open>
  Claim C3 for every size input other than 0. The page is the input raised to at least 1
  (1 when absent), the size is the input clamped to the range from 1 to 100 (10 when
  absent), \<open>totalEntries\<close> is the length of the collection that reaches the pagination
  step, \<open>totalPages\<close> is the ceiling of \<open>totalEntries / size\<close>, the returned entries are
  those at the indices from \<open>(page - 1) * size\<close> up to \<open>(page - 1) * size + size\<close>, none when
  that offset is not below the length. In the handler the step runs on the filtered and
  sorted array, so the descriptor counts the filtered entries. With 25 entries, page 2
  and size 10 the result is \<open>entries[10:20]\<close> with 3 pages and 25 entries in total.
\<close>

theorem pagination_step:
  assumes "entries_size q \<noteq> Some 0"
  shows "page (snd (paginate q es)) = (case entries_page q of None \<Rightarrow> 1 | Some p \<Rightarrow> max p 1)
       \<and> size_p (snd (paginate q es)) = (case entries_size q of None \<Rightarrow> 10 | Some n \<Rightarrow> min (max n 1) 100)
       \<and> 1 \<le> page (snd (paginate q es))
       \<and> 1 \<le> size_p (snd (paginate q es)) \<and> size_p (snd (paginate q es)) \<le> 100
       \<and> totalEntries_p (snd (paginate q es)) = int (length es)
       \<and> totalPages (snd (paginate q es))
            = \<lceil>real (length es) / real_of_int (size_p (snd (paginate q es)))\<rceil>
       \<and> fst (paginate q es)
            = take (nat (size_p (snd (paginate q es))))
                (drop (nat ((page (snd (paginate q es)) - 1) * size_p (snd (paginate q es)))) es)
       \<and> (int (length es) \<le> (page (snd (paginate q es)) - 1) * size_p (snd (paginate q es))
            \<longrightarrow> fst (paginate q es) = [])
       \<and> fst (query_entries q report s)
            = paginate q (sort_entries (entries_sort q) (filter_entries q (cells s (entries report))))
       \<and> totalEntries_p (snd (fst (query_entries q report s)))
            = int (length (filter_entries q (cells s (entries report))))
       \<and> (length es = 25 \<and> entries_page q = Some 2 \<and> entries_size q = Some 10 \<longrightarrow>
            paginate q es = (take 10 (drop 10 es),
               \<lparr>page = 2, size_p = 10, totalPages = 3, totalEntries_p = 25\<rparr>))"
proof -
  have pg: "page (snd (paginate q es)) = validPage q" "size_p (snd (paginate q es)) = validSize q"
    "totalEntries_p (snd (paginate q es)) = int (length es)"
    "totalPages (snd (paginate q es)) = \<lceil>real (length es) / real_of_int (validSize q)\<rceil>"
    "fst (paginate q es) = take (nat (validSize q)) (drop (nat ((validPage q - 1) * validSize q)) es)"
    by (simp_all add: paginate_eq)
  have empty: "fst (paginate q es) = []" if "int (length es) \<le> (validPage q - 1) * validSize q"
    using that by (simp add: pg(5))
  have handler: "fst (query_entries q report s)
            = paginate q (sort_entries (entries_sort q) (filter_entries q (cells s (entries report))))"
    by (simp add: query_entries_result pipeline_def)
  have total: "totalEntries_p (snd (fst (query_entries q report s)))
            = int (length (filter_entries q (cells s (entries report))))"
    by (simp add: handler paginate_eq length_sort_entries)
  have scenario: "paginate q es = (take 10 (drop 10 es),
               \<lparr>page = 2, size_p = 10, totalPages = 3, totalEntries_p = 25\<rparr>)"
    if "length es = 25" "entries_page q = Some 2" "entries_size q = Some 10"
    using that
    by (simp add: paginate_eq validPage_def validSize_def or_default_def)
  show ?thesis
    using validPage_eq [of q] validSize_eq [OF assms] validPage_ge [of q] validSize_range [of q]
      empty handler total scenario
    by (simp add: pg)
qed

text \<open>
  Claim C3 on 25 sample entries \<open>a\<close> to \<open>y\<close>: page 2 of size 10 holds \<open>k\<close> to \<open>t\<close>, and
  page 4 is empty.
\<close>

theorem pagination_step_witness:
  "paginate (no_query\<lparr>entries_page := Some 2, entries_size := Some 10\<rparr>) entries25
     = (map (\<lambda>c. sample_entry [c] low) ''klmnopqrst'',
        \<lparr>page = 2, size_p = 10, totalPages = 3, totalEntries_p = 25\<rparr>)
   \<and> fst (paginate (no_query\<lparr>entries_page := Some 4, entries_size := Some 10\<rparr>) entries25) = []"
proof -
  let ?q = "no_query\<lparr>entries_page := Some 2, entries_size := Some 10\<rparr>"
  let ?q4 = "no_query\<lparr>entries_page := Some 4, entries_size := Some 10\<rparr>"
  have n: "entries_size ?q \<noteq> Some 0" "entries_size ?q4 \<noteq> Some 0" by simp_all
  have len: "length entries25 = 25" by (simp add: entries25_def)
  have sl: "take 10 (drop 10 entries25) = map (\<lambda>c. sample_entry [c] low) ''klmnopqrst''"
    by (simp add: entries25_def)
  from pagination_step [OF n(1), of entries25] len sl
  have a: "paginate ?q entries25 = (map (\<lambda>c. sample_entry [c] low) ''klmnopqrst'',
        \<lparr>page = 2, size_p = 10, totalPages = 3, totalEntries_p = 25\<rparr>)"
    by simp
  from pagination_step [OF n(2), of entries25] len
  have b: "fst (paginate ?q4 entries25) = []"
    by simp
  from a b show ?thesis by simp
qed

text \<open>
  Claim C8 says that page 1 of size 100 without filter and sort returns the full
  collection. Of 101 entries it returns the first 100.
\<close>

theorem full_page_counterexample:
  "fst (pipeline (no_query\<lparr>entries_page := Some 1, entries_size := Some 100\<rparr>)
         (replicate 101 (sample_entry ''e'' low)))
     = replicate 100 (sample_entry ''e'' low)
   \<and> fst (pipeline (no_query\<lparr>entries_page := Some 1, entries_size := Some 100\<rparr>)
         (replicate 101 (sample_entry ''e'' low)))
     \<noteq> replicate 101 (sample_entry ''e'' low)"
proof -
  have "fst (pipeline (no_query\<lparr>entries_page := Some 1, entries_size := Some 100\<rparr>)
         (replicate 101 (sample_entry ''e'' low)))
     = replicate 100 (sample_entry ''e'' low)"
    by (simp add: pipeline_def paginate_eq validSize_def validPage_def or_default_def no_query_def
        sort_entries_def filter_entries_def)
  moreover have "replicate 100 (sample_entry ''e'' low) \<noteq> replicate 101 (sample_entry ''e'' low)"
    by (simp add: replicate_eq_replicate)
  ultimately show ?thesis by simp
qed

text \<open>
  Claim C8 as the code has it: page 1 of size 100 without filter and sort returns the
  first 100 entries in their original order, which is the full collection when it has at
  most 100 entries; the handler returns the same for the array of the report.
\<close>

theorem full_page_returns_first_hundred:
  assumes "entries_page q = Some 1" and "entries_size q = Some 100"
    and "entries_highPriorityOnly q \<noteq> Some ''true''"
    and "entries_sort q = None \<or> entries_sort q = Some []"
  shows "fst (pipeline q es) = take 100 es
       \<and> (length es \<le> 100 \<longrightarrow> fst (pipeline q es) = es)
       \<and> fst (fst (query_entries q report s)) = take 100 (cells s (entries report))"
proof -
  have "sort_entries (entries_sort q) (filter_entries q xs) = xs" for xs
    using assms(3,4) by (auto simp: sort_entries_def filter_entries_def)
  then have "fst (pipeline q xs) = take 100 xs" for xs
    using assms(1,2)
    by (simp add: pipeline_def paginate_eq validPage_def validSize_def or_default_def)
  then show ?thesis by (simp add: query_entries_result)
qed

text \<open>Claim C8 on the four sample entries.\<close>

theorem full_page_returns_first_hundred_witness:
  "fst (pipeline (no_query\<lparr>entries_page := Some 1, entries_size := Some 100\<rparr>) sample_entries)
     = sample_entries"
  using full_page_returns_first_hundred
    [of "no_query\<lparr>entries_page := Some 1, entries_size := Some 100\<rparr>" sample_entries]
  by (simp add: no_query_def sample_entries_def)

section \<open>The update path\<close>

lemma put_report_conflict:
  "version_u updates = Some v \<Longrightarrow> v \<noteq> 0 \<Longrightarrow> v \<noteq> version report \<Longrightarrow>
   put_report now updates report = Inl (VERSION_CONFLICT (version report))"
  by (simp add: put_report_def version_mismatch_def)

lemma put_handler_conflict:
  assumes "find (\<lambda>r. id_r r = i) (reports s) = Some report" and "title_u updates \<noteq> Some []"
    and "version_u updates = Some v" and "v \<noteq> 0" and "v \<noteq> version report"
  shows "put_handler now i updates s = (Inl (VERSION_CONFLICT (version report)), s)"
  using assms put_report_conflict [OF assms(3-5), of now] by (simp add: put_handler_def)

lemma put_report_applied:
  "\<not> version_mismatch updates report \<Longrightarrow>
   put_report now updates report =
     Inr (report\<lparr>title := (case title_u updates of None \<Rightarrow> title report | Some t \<Rightarrow> t),
                 status := (case status_u updates of None \<Rightarrow> status report | Some t \<Rightarrow> t),
                 priority := (case priority_u updates of None \<Rightarrow> priority report | Some t \<Rightarrow> t),
                 updatedAt := now,
                 version := version report + 1,
                 auditLogs := push_log (auditEntry_update
                    ((if changed (title_u updates) (title report) then [''title''] else [])
                     @ (if changed (status_u updates) (status report) then [''status''] else [])
                     @ (if changed (priority_u updates) (priority report) then [''priority''] else [])) now)
                    (auditLogs report)\<rparr>)"
  by (simp add: put_report_def Let_def changed_def split: option.splits)

lemma put_report_Inr:
  "put_report now updates report = Inr r' \<Longrightarrow> \<not> version_mismatch updates report"
  by (auto simp: put_report_def split: if_splits)

lemma put_report_version:
  assumes "put_report now updates report = Inr r'"
  shows "version r' = version report + 1 \<and> updatedAt r' = now"
proof -
  have "\<not> version_mismatch updates report" using assms by (rule put_report_Inr)
  from put_report_applied [OF this, of now] assms show ?thesis by auto
qed

lemma post_attachment_version:
  assumes "post_attachment now req_file report = Inr r'"
  shows "version r' = version report \<and> updatedAt r' = updatedAt report"
  using assms by (auto simp: post_attachment_def Let_def split: option.splits)

lemma post_attachment_result:
  assumes "post_attachment now req_file report = Inr r2"
  shows "\<exists>f. req_file = Some f
           \<and> r2 = report\<lparr>attachments :=
                   Some ((case attachments report of None \<Rightarrow> [] | Some as \<Rightarrow> as)
                         @ [\<lparr>filename = filename_f f, originalName = originalname f,
                              mimetype = mimetype_f f, size_a = size_f f,
                              url = ''/uploads/'' @ filename_f f\<rparr>]),
                 auditLogs :=
                   Some ((case auditLogs report of None \<Rightarrow> [] | Some ls \<Rightarrow> ls)
                         @ [''Uploaded attachment: '' @ originalname f @ '' at '' @ now])\<rparr>"
  using assms by (auto simp: post_attachment_def Let_def push_log_def split: option.splits)

lemma run_version: "version (run ms report) = version report + int (successful_updates ms report)"
proof (induction ms arbitrary: report)
  case Nil
  show ?case by simp
next
  case (Cons m ms)
  show ?case
  proof (cases "mutate m report")
    case (Inl e)
    with Cons show ?thesis by simp
  next
    case (Inr r')
    have step: "version r' = version report + (if is_update m then 1 else 0)"
    proof (cases m)
      case (Update now updates)
      with Inr put_report_version [of now updates report r'] show ?thesis by simp
    next
      case (Append now req_file)
      with Inr post_attachment_version [of now req_file report r'] show ?thesis by simp
    qed
    from Inr Cons [of r'] step show ?thesis by simp
  qed
qed

text \<open>
  At the level of the store: a successful update answers with the mutated report, and that
  report is what a lookup by the same id finds afterwards.
\<close>

lemma find_replace_first:
  "find P xs = Some x \<Longrightarrow> P y \<Longrightarrow> find P (replace_first P y xs) = Some y"
  by (induction xs) (auto split: if_splits)

lemma put_report_id: "put_report now updates report = Inr r' \<Longrightarrow> id_r r' = id_r report"
  using put_report_applied [of updates report now] put_report_Inr [of now updates report r']
  by auto

lemma find_holds: "find P xs = Some x \<Longrightarrow> P x"
  by (induction xs) (auto split: if_splits)

lemma put_handler_applied:
  assumes "find (\<lambda>r. id_r r = i) (reports s) = Some report" and "title_u updates \<noteq> Some []"
    and "put_report now updates report = Inr r'"
  shows "fst (put_handler now i updates s) = Inr r'
       \<and> find (\<lambda>r. id_r r = i) (reports (snd (put_handler now i updates s))) = Some r'
       \<and> cells (snd (put_handler now i updates s)) = cells s"
proof -
  have "id_r report = i" using find_holds [OF assms(1)] .
  with put_report_id [OF assms(3)] have "id_r r' = i" by simp
  with find_replace_first [OF assms(1), of r'] assms show ?thesis
    by (simp add: put_handler_def)
qed

lemma post_report_version: "fst (post_report uuid now1 now2 body s) = Inr r0 \<Longrightarrow> version r0 = 1"
  by (auto simp: post_report_def Let_def alloc_def split: option.splits if_splits)

text \<open>
  Claim C6. When the patch has no \<open>version\<close> field the version check does not apply and
  the update succeeds whatever the current version of the report is: the supplied fields
  are stored, \<open>updatedAt\<close> is set and the version grows by 1.
\<close>

theorem update_without_version_is_applied:
  assumes "version_u updates = None"
  shows "\<exists>r'. put_report now updates report = Inr r'
           \<and> title r' = (case title_u updates of None \<Rightarrow> title report | Some t \<Rightarrow> t)
           \<and> status r' = (case status_u updates of None \<Rightarrow> status report | Some st \<Rightarrow> st)
           \<and> priority r' = (case priority_u updates of None \<Rightarrow> priority report | Some p \<Rightarrow> p)
           \<and> updatedAt r' = now \<and> version r' = version report + 1"
proof -
  from assms have "\<not> version_mismatch updates report" by (simp add: version_mismatch_def)
  from put_report_applied [OF this, of now] show ?thesis by simp
qed

text \<open>Claim C6 on the sample report at version 7, with an empty patch.\<close>

theorem update_without_version_is_applied_witness:
  "\<exists>r'. put_report ''2025-11-25T12:00:00.000Z'' no_update (sample_report\<lparr>version := 7\<rparr>) = Inr r'
           \<and> title r' = ''Q1'' \<and> status r' = draft \<and> priority r' = medium
           \<and> updatedAt r' = ''2025-11-25T12:00:00.000Z'' \<and> version r' = 8"
  using update_without_version_is_applied [of no_update "''2025-11-25T12:00:00.000Z''" "sample_report\<lparr>version := 7\<rparr>"]
  by (auto simp: no_update_def sample_report_def)

text \<open>
  Claim C10. A patch that supplies the version 0 is not checked against the version of
  the report, because the check asks for a truthy submitted version; the update is
  applied and succeeds although 0 differs from the current version.
\<close>

theorem update_with_version_zero_is_applied:
  assumes "version_u updates = Some 0"
  shows "\<not> version_mismatch updates report \<and>
         (\<exists>r'. put_report now updates report = Inr r'
           \<and> title r' = (case title_u updates of None \<Rightarrow> title report | Some t \<Rightarrow> t)
           \<and> status r' = (case status_u updates of None \<Rightarrow> status report | Some st \<Rightarrow> st)
           \<and> priority r' = (case priority_u updates of None \<Rightarrow> priority report | Some p \<Rightarrow> p)
           \<and> updatedAt r' = now \<and> version r' = version report + 1)"
proof -
  from assms have ok: "\<not> version_mismatch updates report" by (simp add: version_mismatch_def)
  from put_report_applied [OF this, of now] ok show ?thesis by simp
qed

text \<open>Claim C10 on the sample report, whose version is 1.\<close>

theorem update_with_version_zero_is_applied_witness:
  "version sample_report \<noteq> 0 \<and>
   (\<exists>r'. put_report ''2025-11-25T12:00:00.000Z'' (no_update\<lparr>version_u := Some 0\<rparr>) sample_report = Inr r'
           \<and> updatedAt r' = ''2025-11-25T12:00:00.000Z'' \<and> version r' = 2)"
  using update_with_version_zero_is_applied [of "no_update\<lparr>version_u := Some 0\<rparr>" sample_report "''2025-11-25T12:00:00.000Z''"]
  by (auto simp: no_update_def sample_report_def)

text \<open>
  Claim C5. A successful update whose patch changes no field (each of title, status and
  priority is absent or equal to the current value) still adds exactly 1 to the version,
  sets \<open>updatedAt\<close> and appends the audit line with the marker \<open>none\<close>.
\<close>

theorem noop_update_bumps_version:
  assumes "put_report now updates report = Inr r'"
    and "title_u updates = None \<or> title_u updates = Some (title report)"
    and "status_u updates = None \<or> status_u updates = Some (status report)"
    and "priority_u updates = None \<or> priority_u updates = Some (priority report)"
  shows "version r' = version report + 1 \<and> updatedAt r' = now
         \<and> auditLogs r' = Some ((case auditLogs report of None \<Rightarrow> [] | Some ls \<Rightarrow> ls)
                                   @ [''Updated fields: none at '' @ now])
         \<and> title r' = title report \<and> status r' = status report \<and> priority r' = priority report"
proof -
  have ok: "\<not> version_mismatch updates report" using assms(1) by (rule put_report_Inr)
  have unchanged: "\<not> changed (title_u updates) (title report)"
    "\<not> changed (status_u updates) (status report)"
    "\<not> changed (priority_u updates) (priority report)"
    using assms(2-4) by (auto simp: changed_def)
  have line: "auditEntry_update [] now = ''Updated fields: none at '' @ now"
    by (simp add: auditEntry_update_def)
  from put_report_applied [OF ok, of now] assms unchanged line show ?thesis
    by (auto simp: push_log_def)
qed

text \<open>
  Claim C5 on the sample report, with a patch that repeats its title and its version.
\<close>

theorem noop_update_bumps_version_witness:
  "put_report ''2025-11-25T12:00:00.000Z'' (no_update\<lparr>title_u := Some ''Q1'', version_u := Some 1\<rparr>) sample_report
     = Inr (sample_report\<lparr>updatedAt := ''2025-11-25T12:00:00.000Z'', version := 2,
              auditLogs := Some [''Updated fields: none at 2025-11-25T12:00:00.000Z'']\<rparr>)"
proof -
  let ?u = "no_update\<lparr>title_u := Some ''Q1'', version_u := Some 1\<rparr>"
  let ?now = "''2025-11-25T12:00:00.000Z''"
  have run: "put_report ?now ?u sample_report
     = Inr (sample_report\<lparr>updatedAt := ?now, version := 2,
              auditLogs := Some [''Updated fields: none at 2025-11-25T12:00:00.000Z'']\<rparr>)"
    by (simp add: put_report_def version_mismatch_def changed_def no_update_def
        sample_report_def auditEntry_update_def push_log_def Let_def)
  from noop_update_bumps_version [OF run] show ?thesis using run by simp
qed

text \<open>
  Claim C1 says that a patch whose version is present and differs from the version of the
  report fails with a version conflict that reports both the submitted and the current
  version. On the sample report at version 2, the patch with version 0 is applied (the
  title changes and the version becomes 3), and the stale patches with versions 1 and 5
  fail with one and the same response, which carries the current version 2 only.
\<close>

theorem version_conflict_at_zero_and_payload:
  "\<not> isl (put_report ''2025-11-25T12:00:00.000Z'' (no_update\<lparr>title_u := Some ''Q1 final'', version_u := Some 0\<rparr>) (sample_report\<lparr>version := 2\<rparr>))
   \<and> title (projr (put_report ''2025-11-25T12:00:00.000Z'' (no_update\<lparr>title_u := Some ''Q1 final'', version_u := Some 0\<rparr>) (sample_report\<lparr>version := 2\<rparr>))) = ''Q1 final''
   \<and> version (projr (put_report ''2025-11-25T12:00:00.000Z'' (no_update\<lparr>title_u := Some ''Q1 final'', version_u := Some 0\<rparr>) (sample_report\<lparr>version := 2\<rparr>))) = 3
   \<and> put_report ''2025-11-25T12:00:00.000Z'' (no_update\<lparr>version_u := Some 1\<rparr>) (sample_report\<lparr>version := 2\<rparr>) = Inl (VERSION_CONFLICT 2)
   \<and> put_report ''2025-11-25T12:00:00.000Z'' (no_update\<lparr>version_u := Some 5\<rparr>) (sample_report\<lparr>version := 2\<rparr>) = Inl (VERSION_CONFLICT 2)"
  by (simp add: put_report_def version_mismatch_def changed_def no_update_def
        sample_report_def auditEntry_update_def push_log_def Let_def)

text \<open>
  Claim C7 says that every successful mutation, an attachment append too, advances
  \<open>updatedAt\<close> and adds 1 to the version. On the sample report the append succeeds, stores
  the attachment and the audit line, and leaves \<open>updatedAt\<close> and the version as they were.
  An update whose clock reading equals the stored \<open>updatedAt\<close> (a second request in the
  same millisecond) adds 1 to the version and leaves \<open>updatedAt\<close> at the same value.
\<close>

theorem attachment_append_keeps_version:
  "\<not> isl (post_attachment ''2025-11-25T12:01:00.000Z'' (Some sample_file) sample_report)
   \<and> attachments (projr (post_attachment ''2025-11-25T12:01:00.000Z'' (Some sample_file) sample_report))
       = Some [\<lparr>filename = ''file-1764120209757-268757.jpg'', originalName = ''file.jpg'',
                 mimetype = ''image/jpeg'', size_a = 432030,
                 url = ''/uploads/file-1764120209757-268757.jpg''\<rparr>]
   \<and> auditLogs (projr (post_attachment ''2025-11-25T12:01:00.000Z'' (Some sample_file) sample_report))
       = Some [''Uploaded attachment: file.jpg at 2025-11-25T12:01:00.000Z'']
   \<and> version (projr (post_attachment ''2025-11-25T12:01:00.000Z'' (Some sample_file) sample_report)) = 1
   \<and> version (projr (post_attachment ''2025-11-25T12:01:00.000Z'' (Some sample_file) sample_report)) \<noteq> version sample_report + 1
   \<and> updatedAt (projr (post_attachment ''2025-11-25T12:01:00.000Z'' (Some sample_file) sample_report)) = updatedAt sample_report
   \<and> \<not> isl (put_report ''2025-11-25T10:30:00.000Z'' no_update sample_report)
   \<and> version (projr (put_report ''2025-11-25T10:30:00.000Z'' no_update sample_report)) = 2
   \<and> updatedAt (projr (put_report ''2025-11-25T10:30:00.000Z'' no_update sample_report)) = updatedAt sample_report"
  by (simp add: post_attachment_def put_report_def version_mismatch_def changed_def no_update_def
      auditEntry_update_def Let_def sample_report_def sample_file_def push_log_def)

text \<open>
  Claim C7 as the code has it. A successful update adds exactly 1 to the version and sets
  \<open>updatedAt\<close> to the clock reading taken by the handler, so \<open>updatedAt\<close> advances whenever
  that reading is later than the stored value (ISO timestamps are ordered as strings). A
  successful attachment append changes neither: it appends the attachment built from the
  uploaded file and the audit line of the upload, and leaves every other field as it was.
  So after any sequence of mutations the version is the initial one plus the number of
  successful updates, which is 1 plus that number for a report made by the create handler.
\<close>

theorem version_counts_updates:
  assumes "put_report now updates report = Inr r1"
    and "post_attachment now' req_file report = Inr r2"
    and "fst (post_report uuid now1 now2 body s) = Inr r0"
  shows "version r1 = version report + 1 \<and> updatedAt r1 = now
       \<and> (updatedAt report < now \<longrightarrow> updatedAt report < updatedAt r1)
       \<and> version r2 = version report \<and> updatedAt r2 = updatedAt report
       \<and> (\<exists>f. req_file = Some f
             \<and> r2 = report\<lparr>attachments :=
                     Some ((case attachments report of None \<Rightarrow> [] | Some as \<Rightarrow> as)
                           @ [\<lparr>filename = filename_f f, originalName = originalname f,
                                mimetype = mimetype_f f, size_a = size_f f,
                                url = ''/uploads/'' @ filename_f f\<rparr>]),
                   auditLogs :=
                     Some ((case auditLogs report of None \<Rightarrow> [] | Some ls \<Rightarrow> ls)
                           @ [''Uploaded attachment: '' @ originalname f @ '' at '' @ now'])\<rparr>)
       \<and> version (run ms report) = version report + int (successful_updates ms report)
       \<and> version r0 = 1
       \<and> version (run ms r0) = 1 + int (successful_updates ms r0)"
proof -
  have upd: "version r1 = version report + 1 \<and> updatedAt r1 = now"
    using assms(1) by (rule put_report_version)
  have app: "version r2 = version report \<and> updatedAt r2 = updatedAt report"
    using assms(2) by (rule post_attachment_version)
  have made: "version r0 = 1"
    using assms(3) by (rule post_report_version)
  show ?thesis
    using upd app made post_attachment_result [OF assms(2)]
      run_version [of ms report] run_version [of ms r0]
    by simp
qed

text \<open>
  Claim C7 on the sample report, which is the report the create handler makes in the empty
  store. Of the four sample mutations one upload and one update succeed: the version ends
  at 2, \<open>updatedAt\<close> is the time of the update, and the attachment and both audit lines
  are stored.
\<close>

theorem version_counts_updates_witness:
  "version (run sample_mutations sample_report) = 2
   \<and> successful_updates sample_mutations sample_report = 1
   \<and> updatedAt (run sample_mutations sample_report) = ''2025-11-25T12:02:00.000Z''
   \<and> attachments (run sample_mutations sample_report)
       = Some [\<lparr>filename = ''file-1764120209757-268757.jpg'', originalName = ''file.jpg'',
                 mimetype = ''image/jpeg'', size_a = 432030,
                 url = ''/uploads/file-1764120209757-268757.jpg''\<rparr>]
   \<and> auditLogs (run sample_mutations sample_report)
       = Some [''Uploaded attachment: file.jpg at 2025-11-25T12:01:00.000Z'',
               ''Updated fields: title at 2025-11-25T12:02:00.000Z'']
   \<and> updatedAt sample_report < ''2025-11-25T12:00:00.000Z''
   \<and> fst (post_report ''r-1'' ''2025-11-25T10:30:00.000Z'' ''2025-11-25T10:30:00.000Z''
            \<lparr>title_n = Some ''Q1'', status_n = None, priority_n = None\<rparr> empty_state)
       = Inr sample_report"
proof -
  have h1: "put_report ''2025-11-25T12:00:00.000Z'' no_update sample_report
     = Inr (sample_report\<lparr>updatedAt := ''2025-11-25T12:00:00.000Z'', version := 2,
              auditLogs := Some [''Updated fields: none at 2025-11-25T12:00:00.000Z'']\<rparr>)"
    by (simp add: put_report_def version_mismatch_def changed_def no_update_def
        sample_report_def auditEntry_update_def push_log_def Let_def)
  have h2: "post_attachment ''2025-11-25T12:01:00.000Z'' (Some sample_file) sample_report
     = Inr (sample_report\<lparr>attachments := Some [\<lparr>filename = ''file-1764120209757-268757.jpg'',
                originalName = ''file.jpg'', mimetype = ''image/jpeg'', size_a = 432030,
                url = ''/uploads/file-1764120209757-268757.jpg''\<rparr>],
              auditLogs := Some [''Uploaded attachment: file.jpg at 2025-11-25T12:01:00.000Z'']\<rparr>)"
    by (simp add: post_attachment_def Let_def sample_report_def sample_file_def push_log_def)
  have h3: "fst (post_report ''r-1'' ''2025-11-25T10:30:00.000Z'' ''2025-11-25T10:30:00.000Z''
            \<lparr>title_n = Some ''Q1'', status_n = None, priority_n = None\<rparr> empty_state)
       = Inr sample_report"
    by (simp add: post_report_def alloc_def empty_state_def sample_report_def Let_def)
  have later: "updatedAt sample_report < ''2025-11-25T12:00:00.000Z''"
    by (simp add: sample_report_def less_char_def)
  have ev: "successful_updates sample_mutations sample_report = 1"
    by (simp add: sample_mutations_def put_report_def post_attachment_def version_mismatch_def
        changed_def no_update_def sample_report_def sample_file_def auditEntry_update_def
        push_log_def Let_def)
  have final: "run sample_mutations sample_report
     = sample_report\<lparr>title := ''Q1 final'', updatedAt := ''2025-11-25T12:02:00.000Z'',
         version := 2,
         attachments := Some [\<lparr>filename = ''file-1764120209757-268757.jpg'',
                originalName = ''file.jpg'', mimetype = ''image/jpeg'', size_a = 432030,
                url = ''/uploads/file-1764120209757-268757.jpg''\<rparr>],
         auditLogs := Some [''Uploaded attachment: file.jpg at 2025-11-25T12:01:00.000Z'',
               ''Updated fields: title at 2025-11-25T12:02:00.000Z'']\<rparr>"
    by (simp add: sample_mutations_def put_report_def post_attachment_def version_mismatch_def
        changed_def no_update_def sample_report_def sample_file_def auditEntry_update_def
        push_log_def Let_def)
  from version_counts_updates [OF h1 h2 h3, of sample_mutations] ev h3 later show ?thesis
    by (simp add: final)
qed

section \<open>The view projector\<close>

text \<open>
  A full view of the sample report with the entries included, sorted by descending
  priority, three to a page.
\<close>

lemma get_report_sample:
  "fst (get_report ''r-1''
       (no_query\<lparr>include_q := Some ''attachments, entries'', entries_sort := Some ''priority_desc'',
                  entries_page := Some 1, entries_size := Some 3\<rparr>) sample_state)
   = Inr (Full \<lparr>id_fv = ''r-1'', title_fv = ''Q1'', status_fv = draft, priority_fv = medium,
      createdAt_fv = ''2025-11-25T10:30:00.000Z'', updatedAt_fv = ''2025-11-25T10:30:00.000Z'',
      version_fv = 1, metrics_fv = \<lparr>totalEntries = 0, highPriorityEntries = 0\<rparr>,
      entries_fv = Some [sample_entry ''e1'' high, sample_entry ''e3'' medium, sample_entry ''e2'' low],
      entries_pagination = Some \<lparr>page = 1, size_p = 3, totalPages = 2, totalEntries_p = 4\<rparr>\<rparr>)"
proof -
  let ?q = "no_query\<lparr>include_q := Some ''attachments, entries'', entries_sort := Some ''priority_desc'',
                  entries_page := Some 1, entries_size := Some 3\<rparr>"
  have inc: "include_entries ?q"
    by (simp add: include_entries_def no_query_def trim_def is_space_def)
  have f: "find (\<lambda>r. id_r r = ''r-1'') (reports sample_state) = Some sample_report"
    by (simp add: sample_state_def sample_report_def)
  have c: "cells sample_state (entries sample_report) = sample_entries"
    by (simp add: sample_state_def sample_report_def)
  have srt: "sort_entries (Some ''priority_desc'') sample_entries
     = [sample_entry ''e1'' high, sample_entry ''e3'' medium, sample_entry ''e2'' low, sample_entry ''e4'' low]"
    by (simp add: sort_entries_def sort_param_parse sort_cmp_def compare_def sort_value_def
      sample_entries_def sample_entry_def Let_def)
  have p: "pipeline ?q sample_entries
     = ([sample_entry ''e1'' high, sample_entry ''e3'' medium, sample_entry ''e2'' low],
        \<lparr>page = 1, size_p = 3, totalPages = 2, totalEntries_p = 4\<rparr>)"
    by (simp add: pipeline_def filter_entries_def no_query_def srt paginate_eq validPage_def
        validSize_def or_default_def)
  have "fst (get_report ''r-1'' ?q sample_state)
      = Inr (Full \<lparr>id_fv = id_r sample_report, title_fv = title sample_report,
                  status_fv = status sample_report, priority_fv = priority sample_report,
                  createdAt_fv = createdAt sample_report, updatedAt_fv = updatedAt sample_report,
                  version_fv = version sample_report, metrics_fv = metrics sample_report,
                  entries_fv = Some (fst (fst (query_entries ?q sample_report sample_state))),
                  entries_pagination = Some (snd (fst (query_entries ?q sample_report sample_state)))\<rparr>)"
    using f inc by (simp add: get_report_def Let_def split_def no_query_def)
  then show ?thesis
    by (simp add: query_entries_result c p) (simp add: sample_report_def)
qed

text \<open>
  Claim C2 says that the compact view returns metrics recomputed from the entries. On a
  report whose array holds four entries while its stored metrics are still zero, the
  view returns the stored zeros next to an \<open>entryCount\<close> of 4.
\<close>

theorem compact_view_metrics_counterexample:
  "metrics_cv (compact sample_report sample_state) = \<lparr>totalEntries = 0, highPriorityEntries = 0\<rparr>
   \<and> entryCount (compact sample_report sample_state) = 4
   \<and> totalEntries (metrics_cv (compact sample_report sample_state))
        \<noteq> entryCount (compact sample_report sample_state)
   \<and> fst (get_report ''r-1'' (no_query\<lparr>view := Some ''compact''\<rparr>) sample_state)
        = Inr (Compact (compact sample_report sample_state))"
  by (simp add: compact_def get_report_def sample_report_def sample_state_def sample_entries_def
      no_query_def Let_def)

text \<open>
  Claim C2 as the code has it: the compact view returns the stored \<open>metrics\<close> field of the
  report as it is; \<open>entryCount\<close> is the number of entries in the array of the report and
  \<open>highPriorityRate\<close> is the share of high-priority entries in that array, 0 when it is
  empty.
\<close>

theorem compact_view_returns_stored_metrics:
  assumes "find (\<lambda>r. id_r r = i) (reports s) = Some report" and "view q = Some ''compact''"
  shows "get_report i q s = (Inr (Compact (compact report s)), s)
         \<and> metrics_cv (compact report s) = metrics report
         \<and> entryCount (compact report s) = length (cells s (entries report))
         \<and> highPriorityRate (compact report s) =
             (if length (cells s (entries report)) = 0 then 0
              else of_nat (length (filter (\<lambda>e. priority_e e = high) (cells s (entries report))))
                     / of_nat (length (cells s (entries report))))"
  using assms by (simp add: get_report_def compact_def Let_def)

text \<open>Claim C2 on the sample store: one of the four entries has priority high.\<close>

theorem compact_view_returns_stored_metrics_witness:
  "get_report ''r-1'' (no_query\<lparr>view := Some ''compact''\<rparr>) sample_state
     = (Inr (Compact (compact sample_report sample_state)), sample_state)
   \<and> metrics_cv (compact sample_report sample_state) = metrics sample_report
   \<and> entryCount (compact sample_report sample_state) = 4
   \<and> highPriorityRate (compact sample_report sample_state) = 1 / 4"
proof -
  have f: "find (\<lambda>r. id_r r = ''r-1'') (reports sample_state) = Some sample_report"
    by (simp add: sample_state_def sample_report_def)
  have v: "view (no_query\<lparr>view := Some ''compact''\<rparr>) = Some ''compact''"
    by simp
  have c: "cells sample_state (entries sample_report) = sample_entries"
    by (simp add: sample_state_def sample_report_def)
  from compact_view_returns_stored_metrics [OF f v] show ?thesis
    by (simp add: c sample_entries_def sample_entry_def)
qed

lemma wf_empty_state: "wf_state empty_state"
  by (simp add: wf_state_def empty_state_def)

lemma wf_post_report: "wf_state s \<Longrightarrow> wf_state (snd (post_report uuid now1 now2 body s))"
  by (auto simp: wf_state_def post_report_def alloc_def Let_def split: option.splits)

lemma put_report_entries: "put_report now updates report = Inr r' \<Longrightarrow> entries r' = entries report"
  using put_report_applied [of updates report now] put_report_Inr [of now updates report r']
  by auto

lemma set_replace_first: "set (replace_first P y xs) \<subseteq> insert y (set xs)"
  by (induction xs) auto

lemma find_in_set: "find P xs = Some x \<Longrightarrow> x \<in> set xs"
  by (induction xs) (auto split: if_splits)

lemma wf_put_handler:
  assumes "wf_state s"
  shows "wf_state (snd (put_handler now i updates s))"
proof (cases "title_u updates = Some []")
  case True
  with assms show ?thesis by (simp add: put_handler_def)
next
  case valid: False
  show ?thesis
  proof (cases "find (\<lambda>r. id_r r = i) (reports s)")
    case None
    with valid assms show ?thesis by (simp add: put_handler_def)
  next
    case (Some report)
    then have mem: "report \<in> set (reports s)" by (rule find_in_set)
    show ?thesis
    proof (cases "put_report now updates report")
      case (Inl e)
      with valid Some assms show ?thesis by (simp add: put_handler_def)
    next
      case (Inr r')
      then have "entries r' = entries report" by (rule put_report_entries)
      with mem assms have "entries r' < next_free s" by (simp add: wf_state_def)
      with assms set_replace_first [of "\<lambda>r. id_r r = i" r' "reports s"]
      have "\<forall>r \<in> set (replace_first (\<lambda>r. id_r r = i) r' (reports s)). entries r < next_free s"
        by (auto simp: wf_state_def)
      with valid Some Inr show ?thesis by (simp add: put_handler_def wf_state_def)
    qed
  qed
qed

lemma get_report_next_free: "next_free s \<le> next_free (snd (get_report i q s))"
  by (simp add: get_report_def query_entries_def sort_at_def alloc_def Let_def split_def
      split: option.splits)

text \<open>
  Claim C9. Whatever the query parameters, the GET handler leaves the array \<open>reports\<close>
  as it was, with every field of every report, and leaves the entries array of every
  report as it was: the copy, the filter result and the slice are new arrays, and the
  in-place sort works on the copy or on the filter result.
\<close>

theorem get_report_leaves_store_unchanged:
  assumes "wf_state s"
  shows "reports (snd (get_report i q s)) = reports s
       \<and> (\<forall>r \<in> set (reports s). cells (snd (get_report i q s)) (entries r) = cells s (entries r))
       \<and> wf_state (snd (get_report i q s))"
proof -
  have frame: "reports (snd (get_report i q s)) = reports s"
    "\<And>a. a < next_free s \<Longrightarrow> cells (snd (get_report i q s)) a = cells s a"
    using get_report_frame_cells [of i q s] by simp_all
  have "cells (snd (get_report i q s)) (entries r) = cells s (entries r)" if "r \<in> set (reports s)" for r
    using that assms by (intro frame(2)) (simp add: wf_state_def)
  moreover have "wf_state (snd (get_report i q s))"
    using assms get_report_next_free [of s i q] by (fastforce simp: wf_state_def frame(1))
  ultimately show ?thesis using frame(1) by simp
qed

text \<open>
  Claim C9 on the sample store, for a request that includes the entries, filters them and
  sorts them by descending priority.
\<close>

theorem get_report_leaves_store_unchanged_witness:
  "reports (snd (get_report ''r-1''
       (no_query\<lparr>include_q := Some ''entries'', entries_sort := Some ''priority_desc'',
                  entries_highPriorityOnly := Some ''true''\<rparr>) sample_state)) = [sample_report]
   \<and> cells (snd (get_report ''r-1''
       (no_query\<lparr>include_q := Some ''entries'', entries_sort := Some ''priority_desc'',
                  entries_highPriorityOnly := Some ''true''\<rparr>) sample_state)) 0 = sample_entries"
proof -
  have r: "reports sample_state = [sample_report]" by (simp add: sample_state_def)
  have a: "entries sample_report = 0" "cells sample_state 0 = sample_entries"
    by (simp_all add: sample_state_def sample_report_def)
  have wf: "wf_state sample_state"
    by (simp add: wf_state_def sample_state_def sample_report_def)
  from get_report_leaves_store_unchanged [OF wf, of "''r-1''"]
  show ?thesis by (simp add: r a)
qed

end
